theory Spec2Isabelle
  imports Main "HOL-Library.Word"
begin

section \<open>Errors\<close>

text \<open>
  The driver's errors: \<open>pgx.ErrNoRows\<close>, which the adapter compares against, and every
  other failure the driver reports, kept as its message.
\<close>

datatype pgx_error = ErrNoRows | PgError string

text \<open>
  The values of Go's \<open>error\<close> that the package returns: the two sentinels of the keystore
  interface (\<open>ks.ErrNoSuchKey\<close>, \<open>ks.ErrKeyExists\<close>), the \<open>fmt.Errorf\<close> of \<open>Put\<close>, the
  \<open>fmt.Errorf("datastore option %d failed: %s", i, err)\<close> of \<open>Apply\<close> (kept structured:
  the index and the option's error), a driver error passed through, and an error of the
  key codec.
\<close>

datatype error =
    ErrNoSuchKey
  | ErrKeyExists
  | Errorf string
  | OptionFailed nat error
  | DriverError pgx_error
  | CodecError string

section \<open>The environment: the key codec and the PostgreSQL driver\<close>

type_synonym bytes = "8 word list"

text \<open>
  \<open>ci.MarshalPrivateKey\<close> and \<open>ci.UnmarshalPrivateKey\<close> belong to the cryptographic
  library. The adapter only calls them, so they are a parameter: any pair of functions,
  each returning either an error or its result. \<open>'k\<close> is the type of private keys.
\<close>

record 'k Codec =
  MarshalPrivateKey :: "'k \<Rightarrow> error + bytes"
  UnmarshalPrivateKey :: "bytes \<Rightarrow> error + 'k"

text \<open>
  The table the README asks the operator to create has two columns,
  \<open>name TEXT NOT NULL PRIMARY KEY\<close> and \<open>data BYTEA\<close>. The adapter never creates it and
  the operator may have declared it otherwise (\<open>name\<close> merely \<open>UNIQUE\<close>, say), so the
  constraints are not assumed: either column may hold NULL (\<open>None\<close>), and a relation is
  the list of its rows in storage order. On a table that does satisfy the constraints the
  statements below do what PostgreSQL does. A database maps the names of the relations
  that exist to their rows.
\<close>

record table_row =
  col_name :: "string option"
  col_data :: "bytes option"

type_synonym database = "string \<rightharpoonup> table_row list"

text \<open>
  The five statements the adapter formats, each with the table name it interpolates for
  \<open>%s\<close> and the arguments it binds to \<open>$1\<close> and \<open>$2\<close>:
  \<^item> \<open>SelectExists\<close>, in \<open>Has\<close>: \<^verbatim>\<open>SELECT exists(SELECT 1 FROM %s WHERE name = $1)\<close>;
  \<^item> \<open>InsertOnConflictUpdate\<close>, in \<open>Put\<close>:
    \<^verbatim>\<open>INSERT INTO %s (name, data) VALUES ($1, $2) ON CONFLICT (name) DO UPDATE SET data = $2\<close>;
  \<^item> \<open>SelectData\<close>, in \<open>Get\<close>: \<^verbatim>\<open>SELECT data FROM %s WHERE name = $1\<close>;
  \<^item> \<open>DeleteWhere\<close>, in \<open>Delete\<close>: \<^verbatim>\<open>DELETE FROM %s WHERE name = $1\<close>;
  \<^item> \<open>SelectName\<close>, in \<open>List\<close>: \<^verbatim>\<open>SELECT name FROM %s\<close>.
\<close>

datatype stmt =
    SelectExists string string
  | InsertOnConflictUpdate string string bytes
  | SelectData string string
  | DeleteWhere string string
  | SelectName string

datatype val = VBool bool | VBytes bytes | VText string | VNull

definition undefined_table :: pgx_error where
  "undefined_table = PgError ''relation does not exist''"

definition closed_pool :: pgx_error where
  "closed_pool = PgError ''closed pool''"

definition scan_failed :: pgx_error where
  "scan_failed = PgError ''cannot scan value into destination''"

definition has_name :: "string \<Rightarrow> table_row \<Rightarrow> bool" where
  "has_name n r = (col_name r = Some n)"

text \<open>
  The insert of \<open>Put\<close>: where rows of that name exist their data is replaced, otherwise a
  row is added.
\<close>

definition upsert :: "string \<Rightarrow> bytes \<Rightarrow> table_row list \<Rightarrow> table_row list" where
  "upsert n b rows =
     (if list_ex (has_name n) rows
      then map (\<lambda>r. if has_name n r then r\<lparr>col_data := Some b\<rparr> else r) rows
      else rows @ [\<lparr>col_name = Some n, col_data = Some b\<rparr>])"

text \<open>
  What the server does with a statement: the single-column result rows and the database
  afterwards, or an error when the relation does not exist.
\<close>

fun run_stmt :: "database \<Rightarrow> stmt \<Rightarrow> pgx_error + (val list \<times> database)" where
  "run_stmt db (SelectExists t n) =
     (case db t of
        None \<Rightarrow> Inl undefined_table
      | Some rows \<Rightarrow> Inr ([VBool (list_ex (has_name n) rows)], db))"
| "run_stmt db (InsertOnConflictUpdate t n b) =
     (case db t of
        None \<Rightarrow> Inl undefined_table
      | Some rows \<Rightarrow> Inr ([], db(t \<mapsto> upsert n b rows)))"
| "run_stmt db (SelectData t n) =
     (case db t of
        None \<Rightarrow> Inl undefined_table
      | Some rows \<Rightarrow>
          Inr (map (\<lambda>r. case col_data r of None \<Rightarrow> VNull | Some b \<Rightarrow> VBytes b)
                 (filter (has_name n) rows), db))"
| "run_stmt db (DeleteWhere t n) =
     (case db t of
        None \<Rightarrow> Inl undefined_table
      | Some rows \<Rightarrow> Inr ([], db(t \<mapsto> filter (\<lambda>r. \<not> has_name n r) rows)))"
| "run_stmt db (SelectName t) =
     (case db t of
        None \<Rightarrow> Inl undefined_table
      | Some rows \<Rightarrow>
          Inr (map (\<lambda>r. case col_name r of None \<Rightarrow> VNull | Some s \<Rightarrow> VText s) rows, db))"

text \<open>
  What can go wrong with a request. \<open>Refused e\<close>: the driver reports \<open>e\<close> and the statement
  does not reach the server. \<open>Interrupted msg\<close>: the server runs the statement and its result
  rows arrive, but the driver finds the error \<open>PgError msg\<close> when it closes the result, the
  connection having failed before the command completed.
\<close>

datatype fault = Refused pgx_error | Interrupted string

text \<open>
  A \<open>*pgxpool.Pool\<close> stands for everything behind the handle: whether the pool has been
  closed, the database it is connected to, and the failures the connection is going to
  suffer. \<open>faults\<close> is consumed one entry per request: \<open>None\<close> lets the request through
  untroubled, \<open>Some f\<close> troubles it with \<open>f\<close>; when it is empty every request goes through
  untroubled.
\<close>

record Pool =
  pool_closed :: bool
  relations :: database
  faults :: "fault option list"

text \<open>
  What the driver holds after a request: the error that kept it from an answer, or the
  result rows together with the message of the error that closing them is going to find,
  if any.
\<close>

datatype response = Failed pgx_error | Answered "val list" "string option"

definition serve :: "Pool \<Rightarrow> stmt \<Rightarrow> string option \<Rightarrow> response \<times> Pool" where
  "serve p s late =
     (case run_stmt (relations p) s of
        Inl e \<Rightarrow> (Failed e, p)
      | Inr (vs, db) \<Rightarrow> (Answered vs late, p\<lparr>relations := db\<rparr>))"

definition request :: "Pool \<Rightarrow> stmt \<Rightarrow> response \<times> Pool" where
  "request p s =
     (if pool_closed p then (Failed closed_pool, p)
      else case faults p of
             [] \<Rightarrow> serve p s None
           | None # fs \<Rightarrow> serve (p\<lparr>faults := fs\<rparr>) s None
           | Some (Refused e) # fs \<Rightarrow> (Failed e, p\<lparr>faults := fs\<rparr>)
           | Some (Interrupted msg) # fs \<Rightarrow> serve (p\<lparr>faults := fs\<rparr>) s (Some msg))"

fun close_error :: "string option \<Rightarrow> pgx_error option" where
  "close_error None = None"
| "close_error (Some msg) = Some (PgError msg)"

text \<open>
  \<open>pool.QueryRow\<close> never fails itself: the row it returns carries the error until \<open>Scan\<close>.
\<close>

type_synonym Row = response

definition QueryRow :: "Pool \<Rightarrow> stmt \<Rightarrow> Row \<times> Pool" where
  "QueryRow p s = request p s"

definition Exec :: "Pool \<Rightarrow> stmt \<Rightarrow> pgx_error option \<times> Pool" where
  "Exec p s =
     (case request p s of
        (Failed e, p') \<Rightarrow> (Some e, p')
      | (Answered vs late, p') \<Rightarrow> (close_error late, p'))"

text \<open>
  \<open>Scan\<close> on the row of \<open>QueryRow\<close> takes the destination variable and returns it with the
  error, in the order of pgx v4: an error the row carries is returned at once; without a
  result row the error found on closing is returned, \<open>ErrNoRows\<close> when there is none;
  otherwise the first result row is scanned into the destination, then the row is closed,
  and the error found on closing is what \<open>Scan\<close> returns. So a value that decodes is
  written to the destination also when \<open>Scan\<close> goes on to return an error; a value that
  does not decode leaves the destination as it was.
\<close>

fun Scan_bool :: "Row \<Rightarrow> bool \<Rightarrow> bool \<times> pgx_error option" where
  "Scan_bool (Failed e) dest = (dest, Some e)"
| "Scan_bool (Answered [] None) dest = (dest, Some ErrNoRows)"
| "Scan_bool (Answered [] (Some msg)) dest = (dest, Some (PgError msg))"
| "Scan_bool (Answered (VBool b # vs) late) dest = (b, close_error late)"
| "Scan_bool (Answered (v # vs) late) dest = (dest, Some scan_failed)"

fun Scan_bytes :: "Row \<Rightarrow> bytes \<Rightarrow> bytes \<times> pgx_error option" where
  "Scan_bytes (Failed e) dest = (dest, Some e)"
| "Scan_bytes (Answered [] None) dest = (dest, Some ErrNoRows)"
| "Scan_bytes (Answered [] (Some msg)) dest = (dest, Some (PgError msg))"
| "Scan_bytes (Answered (VBytes b # vs) late) dest = (b, close_error late)"
| "Scan_bytes (Answered (VNull # vs) late) dest = ([], close_error late)"
| "Scan_bytes (Answered (v # vs) late) dest = (dest, Some scan_failed)"

text \<open>
  The cursor of \<open>pool.Query\<close>: the result rows still to come, and whether the rows have been
  closed. \<open>List\<close> never asks the cursor for its error, so the cursor does not carry one.
\<close>

record Rows =
  rows_left :: "val list"
  rows_closed :: bool

definition Query :: "Pool \<Rightarrow> stmt \<Rightarrow> (Rows \<times> pgx_error option) \<times> Pool" where
  "Query p s =
     (case request p s of
        (Failed e, p') \<Rightarrow> ((\<lparr>rows_left = [], rows_closed = True\<rparr>, Some e), p')
      | (Answered vs late, p') \<Rightarrow> ((\<lparr>rows_left = vs, rows_closed = False\<rparr>, None), p'))"

text \<open>
  \<open>rows.Next()\<close>: the next result row and the cursor past it, or \<open>None\<close> (false) when the
  rows are closed or none is left.
\<close>

definition Rows_Next :: "Rows \<Rightarrow> (val \<times> Rows) option" where
  "Rows_Next rows =
     (if rows_closed rows then None
      else case rows_left rows of
             [] \<Rightarrow> None
           | v # vs \<Rightarrow> Some (v, rows\<lparr>rows_left := vs\<rparr>))"

text \<open>
  \<open>rows.Scan(&name)\<close> on the current row: only text scans into a string, NULL does not.
  In pgx v4 a \<open>Scan\<close> that fails closes the rows before it returns its error.
\<close>

definition Rows_Scan_string :: "val \<Rightarrow> Rows \<Rightarrow> string \<Rightarrow> (string \<times> pgx_error option) \<times> Rows" where
  "Rows_Scan_string v rows dest =
     (case v of
        VText s \<Rightarrow> ((s, None), rows)
      | _ \<Rightarrow> ((dest, Some scan_failed), rows\<lparr>rows_closed := True\<rparr>))"

definition Pool_Close :: "Pool \<Rightarrow> Pool" where
  "Pool_Close p = p\<lparr>pool_closed := True\<rparr>"

section \<open>Options\<close>

record Options =
  Table' :: string

text \<open>
  \<open>type Option func(*Options) error\<close>: an option may change the options it is given and
  may fail.
\<close>

type_synonym Option = "Options \<Rightarrow> error option \<times> Options"

fun Apply_from :: "nat \<Rightarrow> Option list \<Rightarrow> Options \<Rightarrow> error option \<times> Options" where
  "Apply_from i [] o' = (None, o')"
| "Apply_from i (opt # opts) o' =
     (case opt o' of
        (Some err, o'') \<Rightarrow> (Some (OptionFailed i err), o'')
      | (None, o'') \<Rightarrow> Apply_from (Suc i) opts o'')"

definition Apply :: "Options \<Rightarrow> Option list \<Rightarrow> error option \<times> Options" where
  "Apply o' opts = Apply_from 0 opts o'"

definition OptionDefaults :: Option where
  "OptionDefaults o' = (None, o'\<lparr>Table' := ''keys''\<rparr>)"

definition Table :: "string \<Rightarrow> Option" where
  "Table t o' = (if t \<noteq> '''' then (None, o'\<lparr>Table' := t\<rparr>) else (None, o'))"

section \<open>The keystore\<close>

record PGKeystore =
  table :: string
  pool :: "Pool option"

text \<open>
  A method either returns, with its results and the keystore as the call left it, or
  panics: every method but \<open>Close\<close> dereferences the pool, and a nil pool is a nil pointer.
\<close>

datatype 'a outcome = Panics | Returns 'a PGKeystore

text \<open>
  \<open>pgxpool.Connect\<close> is the parameter \<open>Connect\<close>: what each connection string leads to.
\<close>

definition NewKeystore ::
  "(string \<Rightarrow> pgx_error + Pool) \<Rightarrow> string \<Rightarrow> Option list \<Rightarrow> error + PGKeystore" where
  "NewKeystore Connect connString options =
     (let cfg = \<lparr>Table' = ''''\<rparr> in
      case Apply cfg (OptionDefaults # options) of
        (Some err, cfg') \<Rightarrow> Inl err
      | (None, cfg') \<Rightarrow>
          (case Connect connString of
             Inl err \<Rightarrow> Inl (DriverError err)
           | Inr p \<Rightarrow> Inr \<lparr>table = Table' cfg', pool = Some p\<rparr>))"

definition Close :: "PGKeystore \<Rightarrow> error option outcome" where
  "Close k =
     (case pool k of
        Some p \<Rightarrow> Returns None (k\<lparr>pool := Some (Pool_Close p)\<rparr>)
      | None \<Rightarrow> Returns None k)"

definition Has :: "PGKeystore \<Rightarrow> string \<Rightarrow> (bool \<times> error option) outcome" where
  "Has k name =
     (case pool k of
        None \<Rightarrow> Panics
      | Some p \<Rightarrow>
          (let sql = SelectExists (table k) name;
               (row, p') = QueryRow p sql;
               (exists, err) = Scan_bool row False;
               k' = k\<lparr>pool := Some p'\<rparr>
           in case err of
                Some ErrNoRows \<Rightarrow> Returns (exists, Some ErrNoSuchKey) k'
              | None \<Rightarrow> Returns (exists, None) k'
              | Some e \<Rightarrow> Returns (exists, Some (DriverError e)) k'))"

definition Put :: "'k Codec \<Rightarrow> PGKeystore \<Rightarrow> string \<Rightarrow> 'k \<Rightarrow> error option outcome" where
  "Put c k name priv =
     (if name = '''' then Returns (Some (Errorf ''key name must be at least one character'')) k
      else case Has k name of
        Panics \<Rightarrow> Panics
      | Returns (exists, err) k1 \<Rightarrow>
          if exists then Returns (Some ErrKeyExists) k1
          else if err \<noteq> None \<and> err \<noteq> Some ErrNoSuchKey then Returns err k1
          else (case MarshalPrivateKey c priv of
                  Inl e \<Rightarrow> Returns (Some e) k1
                | Inr skbytes \<Rightarrow>
                    (case pool k1 of
                       None \<Rightarrow> Panics
                     | Some p \<Rightarrow>
                         (let sql = InsertOnConflictUpdate (table k1) name skbytes;
                              (err', p') = Exec p sql;
                              k2 = k1\<lparr>pool := Some p'\<rparr>
                          in case err' of
                               Some e \<Rightarrow> Returns (Some (DriverError e)) k2
                             | None \<Rightarrow> Returns None k2))))"

definition Get :: "'k Codec \<Rightarrow> PGKeystore \<Rightarrow> string \<Rightarrow> (error + 'k) outcome" where
  "Get c k name =
     (case pool k of
        None \<Rightarrow> Panics
      | Some p \<Rightarrow>
          (let sql = SelectData (table k) name;
               (row, p') = QueryRow p sql;
               (out, err) = Scan_bytes row [];
               k' = k\<lparr>pool := Some p'\<rparr>
           in case err of
                Some ErrNoRows \<Rightarrow> Returns (Inl ErrNoSuchKey) k'
              | None \<Rightarrow> Returns (UnmarshalPrivateKey c out) k'
              | Some e \<Rightarrow> Returns (Inl (DriverError e)) k'))"

definition Delete :: "PGKeystore \<Rightarrow> string \<Rightarrow> error option outcome" where
  "Delete k name =
     (case pool k of
        None \<Rightarrow> Panics
      | Some p \<Rightarrow>
          (let sql = DeleteWhere (table k) name;
               (err, p') = Exec p sql;
               k' = k\<lparr>pool := Some p'\<rparr>
           in case err of
                Some e \<Rightarrow> Returns (Some (DriverError e)) k'
              | None \<Rightarrow> Returns None k'))"

text \<open>
  The loop of \<open>List\<close> over the cursor, \<open>for rows.Next() { ... }\<close>: when the \<open>Scan\<close> of a
  row fails the loop goes on to the next turn (\<open>continue\<close>), otherwise the name is appended.
\<close>

function List_loop :: "Rows \<Rightarrow> string list \<Rightarrow> string list" where
  "List_loop rows names =
     (case Rows_Next rows of
        None \<Rightarrow> names
      | Some (v, rows') \<Rightarrow>
          (case Rows_Scan_string v rows' '''' of
             ((name, Some e), rows'') \<Rightarrow> List_loop rows'' names
           | ((name, None), rows'') \<Rightarrow> List_loop rows'' (names @ [name])))"
  by pat_completeness auto
termination
  by (relation "measure (\<lambda>(rows, names). length (rows_left rows))")
    (auto simp: Rows_Next_def Rows_Scan_string_def split: if_splits list.splits val.splits)

declare List_loop.simps [simp del]

definition List :: "PGKeystore \<Rightarrow> (string list \<times> error option) outcome" where
  "List k =
     (case pool k of
        None \<Rightarrow> Panics
      | Some p \<Rightarrow>
          (let sql = SelectName (table k);
               ((rows, err), p') = Query p sql;
               k' = k\<lparr>pool := Some p'\<rparr>
           in case err of
                Some e \<Rightarrow> Returns ([], Some (DriverError e)) k'
              | None \<Rightarrow> Returns (List_loop rows [], None) k'))"

section \<open>Observing a keystore\<close>

text \<open>
  The rows of the relation the keystore is configured for, the failures its connection
  still has to suffer, and the keystores whose requests reach a server that has the
  relation: the pool is there and open, no failure is pending, the relation exists.
\<close>

definition stored :: "PGKeystore \<Rightarrow> table_row list" where
  "stored k =
     (case pool k of
        None \<Rightarrow> []
      | Some p \<Rightarrow> (case relations p (table k) of None \<Rightarrow> [] | Some rows \<Rightarrow> rows))"

definition pending_faults :: "PGKeystore \<Rightarrow> fault option list" where
  "pending_faults k = (case pool k of None \<Rightarrow> [] | Some p \<Rightarrow> faults p)"

definition healthy :: "PGKeystore \<Rightarrow> bool" where
  "healthy k =
     (case pool k of
        None \<Rightarrow> False
      | Some p \<Rightarrow> \<not> pool_closed p \<and> faults p = [] \<and> relations p (table k) \<noteq> None)"

text \<open>The names of the rows that come before the first row whose name is NULL.\<close>

fun names_until_null :: "table_row list \<Rightarrow> string list" where
  "names_until_null [] = []"
| "names_until_null (r # rs) =
     (case col_name r of None \<Rightarrow> [] | Some n \<Rightarrow> n # names_until_null rs)"

section \<open>Sequences of calls\<close>

text \<open>
  The methods a caller can invoke on a keystore, and the keystore a sequence of calls leaves
  behind. A sequence stops with \<open>None\<close> at a call that panics.
\<close>

datatype 'k call =
    CallHas string
  | CallPut string 'k
  | CallGet string
  | CallDelete string
  | CallList
  | CallClose

fun keystore_after :: "'a outcome \<Rightarrow> PGKeystore option" where
  "keystore_after Panics = None"
| "keystore_after (Returns r k) = Some k"

fun call_method :: "'k Codec \<Rightarrow> PGKeystore \<Rightarrow> 'k call \<Rightarrow> PGKeystore option" where
  "call_method c k (CallHas n) = keystore_after (Has k n)"
| "call_method c k (CallPut n priv) = keystore_after (Put c k n priv)"
| "call_method c k (CallGet n) = keystore_after (Get c k n)"
| "call_method c k (CallDelete n) = keystore_after (Delete k n)"
| "call_method c k CallList = keystore_after (List k)"
| "call_method c k CallClose = keystore_after (Close k)"

fun run_calls :: "'k Codec \<Rightarrow> PGKeystore \<Rightarrow> 'k call list \<Rightarrow> PGKeystore option" where
  "run_calls c k [] = Some k"
| "run_calls c k (x # xs) =
     (case call_method c k x of None \<Rightarrow> None | Some k' \<Rightarrow> run_calls c k' xs)"

section \<open>Examples\<close>

text \<open>
  A codec to run the operations with: a key is its bytes, marshalled behind a one-byte tag.
  And a keystore on the default relation, with the given rows and pending failures.
\<close>

definition tagged_codec :: "bytes Codec" where
  "tagged_codec =
     \<lparr>MarshalPrivateKey = (\<lambda>priv. Inr (8 # priv)),
      UnmarshalPrivateKey =
        (\<lambda>b. case b of [] \<Rightarrow> Inl (CodecError ''short buffer'') | x # priv \<Rightarrow>
           if x = 8 then Inr priv else Inl (CodecError ''bad tag''))\<rparr>"

definition example_pool :: "table_row list \<Rightarrow> fault option list \<Rightarrow> Pool" where
  "example_pool rows fs = \<lparr>pool_closed = False, relations = [''keys'' \<mapsto> rows], faults = fs\<rparr>"

definition example_ks :: "table_row list \<Rightarrow> fault option list \<Rightarrow> PGKeystore" where
  "example_ks rows fs = \<lparr>table = ''keys'', pool = Some (example_pool rows fs)\<rparr>"

definition key_row :: "string \<Rightarrow> bytes \<Rightarrow> table_row" where
  "key_row n b = \<lparr>col_name = Some n, col_data = Some b\<rparr>"

text \<open>
  A row whose name is NULL, which a table declared with \<open>name TEXT UNIQUE\<close> admits. A
  connection that always succeeds. And an option written by a caller, which the exported
  type \<open>Option\<close> and the exported field \<open>Table\<close> of \<open>Options\<close> allow: it blanks the table name.
\<close>

definition null_row :: "bytes \<Rightarrow> table_row" where
  "null_row b = \<lparr>col_name = None, col_data = Some b\<rparr>"

definition example_connect :: "string \<Rightarrow> pgx_error + Pool" where
  "example_connect connString = Inr (example_pool [] [])"

definition blank_table :: Option where
  "blank_table o' = (None, o'\<lparr>Table' := ''''\<rparr>)"

section \<open>Requests that reach the server\<close>

lemma request_no_faults:
  "\<not> pool_closed p \<Longrightarrow> faults p = [] \<Longrightarrow> request p s = serve p s None"
  by (simp add: request_def)

lemma request_Answered:
  assumes "request p s = (Answered vs late, p')"
  shows "\<not> pool_closed p' \<and> run_stmt (relations p) s = Inr (vs, relations p')
         \<and> faults p' = tl (faults p)"
  using assms
  by (auto simp: request_def serve_def
      split: if_splits list.splits option.splits sum.splits prod.splits fault.splits)

lemma healthyD:
  assumes "healthy k"
  obtains p where "pool k = Some p" "\<not> pool_closed p" "faults p = []"
    "relations p (table k) = Some (stored k)"
  using assms by (auto simp: healthy_def stored_def split: option.splits)

lemma Has_healthy:
  assumes "healthy k"
  shows "Has k n = Returns (list_ex (has_name n) (stored k), None) k"
proof -
  from assms obtain p where p: "pool k = Some p" "\<not> pool_closed p" "faults p = []"
    "relations p (table k) = Some (stored k)" by (rule healthyD)
  have "k\<lparr>pool := Some p\<rparr> = k" using p(1) by simp
  then show ?thesis
    using p by (simp add: Has_def QueryRow_def request_no_faults serve_def)
qed

lemma Get_healthy:
  assumes "healthy k"
  shows "Get c k n =
     (case filter (has_name n) (stored k) of
        [] \<Rightarrow> Returns (Inl ErrNoSuchKey) k
      | r # rs \<Rightarrow> Returns (UnmarshalPrivateKey c (case col_data r of None \<Rightarrow> [] | Some b \<Rightarrow> b)) k)"
proof -
  from assms obtain p where p: "pool k = Some p" "\<not> pool_closed p" "faults p = []"
    "relations p (table k) = Some (stored k)" by (rule healthyD)
  have "k\<lparr>pool := Some p\<rparr> = k" using p(1) by simp
  then show ?thesis
    using p
    by (simp add: Get_def QueryRow_def request_no_faults serve_def
        split: list.splits option.splits)
qed

lemma Has_Returns:
  assumes "Has k n = Returns r k1"
  obtains p p1 where "pool k = Some p" "pool k1 = Some p1" "relations p1 = relations p"
    "pool_closed p1 = pool_closed p" "table k1 = table k"
  using assms
  by (auto simp: Has_def QueryRow_def request_def serve_def Let_def
      split: option.splits if_splits list.splits sum.splits prod.splits pgx_error.splits
        fault.splits)

lemma Put_Returns_None:
  assumes "Put c k n priv = Returns None k'"
  obtains b p' rows where "MarshalPrivateKey c priv = Inr b" "pool k' = Some p'"
    "\<not> pool_closed p'" "relations p' (table k') = Some (upsert n b rows)" "table k' = table k"
proof -
  from assms have n: "n \<noteq> []"
    by (auto simp: Put_def)
  from assms n obtain ex err k1 where has: "Has k n = Returns (ex, err) k1"
    by (auto simp: Put_def split: outcome.splits)
  from has obtain p1 where k1: "pool k1 = Some p1" "table k1 = table k"
    by (rule Has_Returns)
  from assms n has k1 obtain b e' p' where
    b: "MarshalPrivateKey c priv = Inr b"
    and ex: "Exec p1 (InsertOnConflictUpdate (table k1) n b) = (e', p')"
    and k': "e' = None" "k' = k1\<lparr>pool := Some p'\<rparr>"
    by (auto simp: Put_def Let_def split: if_splits sum.splits prod.splits option.splits)
  from ex k'(1) obtain vs late where
    "request p1 (InsertOnConflictUpdate (table k1) n b) = (Answered vs late, p')"
    by (auto simp: Exec_def split: prod.splits response.splits)
  then have r: "\<not> pool_closed p'"
    "run_stmt (relations p1) (InsertOnConflictUpdate (table k1) n b) = Inr (vs, relations p')"
    using request_Answered by blast+
  from r(2) obtain rows where "(relations p1)(table k1 \<mapsto> upsert n b rows) = relations p'"
    by (auto split: option.splits)
  then have "relations p' = (relations p1)(table k1 \<mapsto> upsert n b rows)"
    by (rule sym)
  then have "relations p' (table k1) = Some (upsert n b rows)"
    by simp
  with b r(1) k' k1 show ?thesis
    by (intro that [of b p' rows]) auto
qed

lemma filter_has_name_update:
  "filter (has_name n) (map (\<lambda>r. if has_name n r then r\<lparr>col_data := Some b\<rparr> else r) rows) =
   map (\<lambda>r. r\<lparr>col_data := Some b\<rparr>) (filter (has_name n) rows)"
  by (induction rows) (auto simp: has_name_def)

lemma filter_upsert:
  "\<exists>r rs. filter (has_name n) (upsert n b rows) = r # rs \<and> col_data r = Some b"
proof (cases "list_ex (has_name n) rows")
  case True
  then obtain r rs where "filter (has_name n) rows = r # rs"
    by (cases "filter (has_name n) rows") (auto simp: list_ex_iff filter_empty_conv)
  with True show ?thesis
    by (simp add: upsert_def filter_has_name_update)
next
  case False
  then have "filter (has_name n) rows = []"
    by (simp add: list_ex_iff filter_empty_conv)
  with False show ?thesis
    by (simp add: upsert_def has_name_def)
qed

lemma list_ex_upsert: "list_ex (has_name n) (upsert n b rows)"
proof -
  from filter_upsert [of n b rows] have "filter (has_name n) (upsert n b rows) \<noteq> []"
    by auto
  then show ?thesis
    by (simp add: list_ex_iff filter_empty_conv)
qed

lemma Put_Returns_None_healthy:
  assumes "Put c k n priv = Returns None k'" and "pending_faults k' = []"
  obtains b rows where "MarshalPrivateKey c priv = Inr b" "healthy k'"
    "stored k' = upsert n b rows"
proof -
  from assms(1) obtain b p' rows where *: "MarshalPrivateKey c priv = Inr b" "pool k' = Some p'"
    "\<not> pool_closed p'" "relations p' (table k') = Some (upsert n b rows)"
    by (rule Put_Returns_None)
  with assms(2) have "healthy k'" "stored k' = upsert n b rows"
    by (simp_all add: healthy_def stored_def pending_faults_def)
  with *(1) show ?thesis by (rule that)
qed

lemma Put_nonempty: "Put c k n priv = Returns None k' \<Longrightarrow> n \<noteq> []"
  by (auto simp: Put_def)

lemma Exec_healthy_Delete:
  assumes "\<not> pool_closed p" "faults p = []" "relations p t = Some rows"
  shows "Exec p (DeleteWhere t n) =
    (None, p\<lparr>relations := (relations p)(t \<mapsto> filter (\<lambda>r. \<not> has_name n r) rows)\<rparr>)"
  using assms by (simp add: Exec_def request_no_faults serve_def)

lemma List_loop_closed: "rows_closed rows \<Longrightarrow> List_loop rows names = names"
  by (subst List_loop.simps) (simp add: Rows_Next_def)

lemma List_loop_names:
  "List_loop
     \<lparr>rows_left = map (\<lambda>r. case col_name r of None \<Rightarrow> VNull | Some s \<Rightarrow> VText s) rows,
      rows_closed = False\<rparr> names =
   names @ names_until_null rows"
proof (induction rows arbitrary: names)
  case Nil
  show ?case
    by (subst List_loop.simps) (simp add: Rows_Next_def)
next
  case (Cons r rows)
  show ?case
  proof (cases "col_name r")
    case None
    then show ?thesis
      by (subst List_loop.simps)
        (simp add: Rows_Next_def Rows_Scan_string_def List_loop_closed)
  next
    case (Some n)
    with Cons.IH [of "names @ [n]"] show ?thesis
      by (subst List_loop.simps) (simp add: Rows_Next_def Rows_Scan_string_def)
  qed
qed

lemma List_healthy:
  assumes "healthy k"
  shows "List k = Returns (names_until_null (stored k), None) k"
proof -
  from assms obtain p where p: "pool k = Some p" "\<not> pool_closed p" "faults p = []"
    "relations p (table k) = Some (stored k)" by (rule healthyD)
  have "k\<lparr>pool := Some p\<rparr> = k" using p(1) by simp
  then show ?thesis
    using p by (simp add: List_def Query_def request_no_faults serve_def List_loop_names)
qed

lemma Scan_bool_ErrNoRows: "Scan_bool row dest = (d, Some ErrNoRows) \<Longrightarrow> d = dest"
  by (induction row dest rule: Scan_bool.induct) (auto elim: close_error.elims)

lemma Scan_bool_written:
  assumes "Scan_bool row False = (True, err)"
  shows "\<exists>vs late. row = Answered (VBool True # vs) late \<and> err = close_error late"
  using assms by (induction row "False" rule: Scan_bool.induct) auto

lemmas run_defs =
  Put_def Has_def Get_def Delete_def Close_def QueryRow_def Exec_def
  request_def serve_def upsert_def has_name_def Pool_Close_def
  tagged_codec_def example_ks_def example_pool_def key_row_def null_row_def

lemma example_ks_healthy: "healthy (example_ks rows [])"
  by (simp add: healthy_def example_ks_def example_pool_def)

lemma example_ks_stored: "stored (example_ks rows fs) = rows"
  by (simp add: stored_def example_ks_def example_pool_def)

section \<open>Put, Get, Has and Delete in sequence\<close>

text \<open>
  C1. For every name and key, after a \<open>Put\<close> that returned nil, a \<open>Get\<close> of the same name
  whose request reaches the server returns the key that was put, with no error, provided
  the codec decodes what it encoded for this key.
\<close>

theorem Get_after_Put:
  assumes "Put c k n priv = Returns None k'"
    and "pending_faults k' = []"
    and "\<forall>b. MarshalPrivateKey c priv = Inr b \<longrightarrow> UnmarshalPrivateKey c b = Inr priv"
  shows "Get c k' n = Returns (Inr priv) k'"
proof -
  from assms(1,2) obtain b rows where b: "MarshalPrivateKey c priv = Inr b" and h: "healthy k'"
    and s: "stored k' = upsert n b rows"
    by (rule Put_Returns_None_healthy)
  from filter_upsert [of n b rows] obtain r rs where
    "filter (has_name n) (stored k') = r # rs" "col_data r = Some b"
    using s by auto
  with Get_healthy [OF h, of c n] assms(3) b show ?thesis by simp
qed

theorem Get_after_Put_witness:
  "Put tagged_codec (example_ks [] []) ''foo'' [1, 2, 3] =
     Returns None (example_ks [key_row ''foo'' [8, 1, 2, 3]] [])
   \<and> Get tagged_codec (example_ks [key_row ''foo'' [8, 1, 2, 3]] []) ''foo'' =
     Returns (Inr [1, 2, 3]) (example_ks [key_row ''foo'' [8, 1, 2, 3]] [])"
proof -
  have put: "Put tagged_codec (example_ks [] []) ''foo'' [1, 2, 3] =
     Returns None (example_ks [key_row ''foo'' [8, 1, 2, 3]] [])"
    by (simp add: Put_def Has_def QueryRow_def Exec_def request_def serve_def upsert_def
        has_name_def tagged_codec_def example_ks_def example_pool_def key_row_def)
  have pf: "pending_faults (example_ks [key_row ''foo'' [8, 1, 2, 3]] []) = []"
    by (simp add: pending_faults_def example_ks_def example_pool_def)
  have rt: "\<forall>b. MarshalPrivateKey tagged_codec [1, 2, 3] = Inr b \<longrightarrow>
      UnmarshalPrivateKey tagged_codec b = Inr [1, 2, 3]"
    by (auto simp: tagged_codec_def)
  from Get_after_Put [OF put pf rt] put show ?thesis
    by simp
qed

text \<open>
  C2. When a \<open>Put\<close> of a name has returned nil and the next requests reach the server, a
  second \<open>Put\<close> of the same name, with any key, returns \<open>ErrKeyExists\<close> and leaves the
  keystore exactly as it was; a \<open>Get\<close> of the name still decodes the bytes the first key
  was marshalled to.
\<close>

theorem Put_existing:
  assumes "Put c k n k1 = Returns None ka" and "pending_faults ka = []"
  shows "\<exists>b. MarshalPrivateKey c k1 = Inr b
           \<and> Put c ka n k2 = Returns (Some ErrKeyExists) ka
           \<and> Get c ka n = Returns (UnmarshalPrivateKey c b) ka"
proof -
  from assms obtain b rows where b: "MarshalPrivateKey c k1 = Inr b" and h: "healthy ka"
    and s: "stored ka = upsert n b rows"
    by (rule Put_Returns_None_healthy)
  have "Has ka n = Returns (True, None) ka"
    using Has_healthy [OF h, of n] s by (simp add: list_ex_upsert)
  moreover have "n \<noteq> []"
    using assms(1) by (rule Put_nonempty)
  ultimately have put: "Put c ka n k2 = Returns (Some ErrKeyExists) ka"
    by (simp add: Put_def)
  from filter_upsert [of n b rows] obtain r rs where
    "filter (has_name n) (stored ka) = r # rs" "col_data r = Some b"
    using s by auto
  with Get_healthy [OF h, of c n] have "Get c ka n = Returns (UnmarshalPrivateKey c b) ka"
    by simp
  with b put show ?thesis by blast
qed

theorem Put_existing_witness:
  "Put tagged_codec (example_ks [] []) ''foo'' [1, 2, 3] =
     Returns None (example_ks [key_row ''foo'' [8, 1, 2, 3]] [])
   \<and> Put tagged_codec (example_ks [key_row ''foo'' [8, 1, 2, 3]] []) ''foo'' [4, 5] =
     Returns (Some ErrKeyExists) (example_ks [key_row ''foo'' [8, 1, 2, 3]] [])
   \<and> Get tagged_codec (example_ks [key_row ''foo'' [8, 1, 2, 3]] []) ''foo'' =
     Returns (Inr [1, 2, 3]) (example_ks [key_row ''foo'' [8, 1, 2, 3]] [])"
proof -
  have put: "Put tagged_codec (example_ks [] []) ''foo'' [1, 2, 3] =
     Returns None (example_ks [key_row ''foo'' [8, 1, 2, 3]] [])"
    by (simp add: run_defs)
  have pf: "pending_faults (example_ks [key_row ''foo'' [8, 1, 2, 3]] []) = []"
    by (simp add: pending_faults_def example_ks_def example_pool_def)
  from Put_existing [OF put pf, of "[4, 5]"] put show ?thesis
    by (auto simp: tagged_codec_def)
qed

text \<open>
  C3. \<open>Put\<close> with the empty name returns the error "key name must be at least one
  character" for every key, and returns the keystore it was given: no request is sent,
  whatever the state of the pool, nil included.
\<close>

theorem Put_empty_name:
  "Put c k '''' priv = Returns (Some (Errorf ''key name must be at least one character'')) k"
  by (simp add: Put_def)

theorem Put_empty_name_witness:
  "Put tagged_codec (example_ks [] [Some (Refused (PgError ''connection reset''))]) '''' [1, 2, 3] =
     Returns (Some (Errorf ''key name must be at least one character''))
       (example_ks [] [Some (Refused (PgError ''connection reset''))])"
  by (rule Put_empty_name)

text \<open>
  C4. On a keystore whose requests reach the server, \<open>Delete\<close> returns nil for every name,
  stored or not; it removes the rows of that name and no other, and afterwards \<open>Has\<close>
  returns false with no error and \<open>Get\<close> returns \<open>ErrNoSuchKey\<close>.
\<close>

theorem Delete_then_absent:
  assumes "healthy k"
  shows "\<exists>k'. Delete k n = Returns None k'
           \<and> stored k' = filter (\<lambda>r. \<not> has_name n r) (stored k)
           \<and> Has k' n = Returns (False, None) k'
           \<and> Get c k' n = Returns (Inl ErrNoSuchKey) k'"
proof -
  from assms obtain p where p: "pool k = Some p" "\<not> pool_closed p" "faults p = []"
    "relations p (table k) = Some (stored k)" by (rule healthyD)
  define rows' where "rows' = filter (\<lambda>r. \<not> has_name n r) (stored k)"
  define k' where "k' = k\<lparr>pool := Some (p\<lparr>relations := (relations p)(table k \<mapsto> rows')\<rparr>)\<rparr>"
  have del: "Delete k n = Returns None k'"
    using p by (simp add: Delete_def Exec_healthy_Delete k'_def rows'_def)
  have h: "healthy k'" and s: "stored k' = rows'"
    using p by (simp_all add: healthy_def stored_def k'_def)
  have none: "filter (has_name n) rows' = []"
    by (simp add: rows'_def filter_empty_conv)
  then have "\<not> list_ex (has_name n) rows'"
    by (simp add: list_ex_iff filter_empty_conv)
  with Has_healthy [OF h, of n] s have "Has k' n = Returns (False, None) k'"
    by simp
  moreover from Get_healthy [OF h, of c n] s none
  have "Get c k' n = Returns (Inl ErrNoSuchKey) k'"
    by simp
  ultimately show ?thesis
    using del s rows'_def by blast
qed

theorem Delete_then_absent_witness:
  "healthy (example_ks [key_row ''bar'' [8, 9]] [])
   \<and> Delete (example_ks [key_row ''bar'' [8, 9]] []) ''bar'' = Returns None (example_ks [] [])
   \<and> Delete (example_ks [] []) ''bar'' = Returns None (example_ks [] [])
   \<and> Has (example_ks [] []) ''bar'' = Returns (False, None) (example_ks [] [])
   \<and> Get tagged_codec (example_ks [] []) ''bar'' = Returns (Inl ErrNoSuchKey) (example_ks [] [])"
proof -
  have h: "healthy (example_ks [key_row ''bar'' [8, 9]] [])"
    by (simp add: healthy_def example_ks_def example_pool_def)
  have present: "Delete (example_ks [key_row ''bar'' [8, 9]] []) ''bar'' =
      Returns None (example_ks [] [])"
    by (simp add: run_defs)
  have absent: "Delete (example_ks [] []) ''bar'' = Returns None (example_ks [] [])"
    by (simp add: run_defs)
  from Delete_then_absent [OF h, of "''bar''" tagged_codec] h present absent show ?thesis
    by auto
qed

text \<open>
  C5. After a \<open>Put\<close> of a name that returned nil, a \<open>Has\<close> of that name whose request
  reaches the server returns true with no error; and on a keystore whose requests reach the
  server, \<open>Has\<close> of a name that no row carries returns false with no error.
\<close>

theorem Has_after_Put:
  "(Put c k n priv = Returns None k' \<and> pending_faults k' = [] \<longrightarrow>
      Has k' n = Returns (True, None) k')
   \<and> (healthy ka \<and> \<not> list_ex (has_name m) (stored ka) \<longrightarrow>
      Has ka m = Returns (False, None) ka)"
proof (intro conjI impI)
  assume a: "Put c k n priv = Returns None k' \<and> pending_faults k' = []"
  then obtain b rows where h: "healthy k'" and s: "stored k' = upsert n b rows"
    using Put_Returns_None_healthy [of c k n priv k'] by blast
  show "Has k' n = Returns (True, None) k'"
    using Has_healthy [OF h, of n] s by (simp add: list_ex_upsert)
next
  assume "healthy ka \<and> \<not> list_ex (has_name m) (stored ka)"
  then show "Has ka m = Returns (False, None) ka"
    using Has_healthy [of ka m] by simp
qed

theorem Has_after_Put_witness:
  "Put tagged_codec (example_ks [] []) ''foo'' [1, 2, 3] =
     Returns None (example_ks [key_row ''foo'' [8, 1, 2, 3]] [])
   \<and> Has (example_ks [key_row ''foo'' [8, 1, 2, 3]] []) ''foo'' =
     Returns (True, None) (example_ks [key_row ''foo'' [8, 1, 2, 3]] [])
   \<and> Has (example_ks [key_row ''foo'' [8, 1, 2, 3]] []) ''nonexistingkey'' =
     Returns (False, None) (example_ks [key_row ''foo'' [8, 1, 2, 3]] [])"
proof -
  have put: "Put tagged_codec (example_ks [] []) ''foo'' [1, 2, 3] =
     Returns None (example_ks [key_row ''foo'' [8, 1, 2, 3]] [])"
    by (simp add: run_defs)
  have pf: "pending_faults (example_ks [key_row ''foo'' [8, 1, 2, 3]] []) = []"
    by (simp add: pending_faults_def example_ks_def example_pool_def)
  have h: "healthy (example_ks [key_row ''foo'' [8, 1, 2, 3]] [])"
    by (simp add: healthy_def example_ks_def example_pool_def)
  have a: "\<not> list_ex (has_name ''nonexistingkey'')
      (stored (example_ks [key_row ''foo'' [8, 1, 2, 3]] []))"
    by (simp add: stored_def has_name_def example_ks_def example_pool_def key_row_def)
  from Has_after_Put [of tagged_codec "example_ks [] []" "''foo''" "[1, 2, 3]"
      "example_ks [key_row ''foo'' [8, 1, 2, 3]] []"
      "example_ks [key_row ''foo'' [8, 1, 2, 3]] []" "''nonexistingkey''"]
    put pf h a
  show ?thesis by blast
qed

section \<open>List\<close>

text \<open>
  C6. \<open>List\<close> does not pass over a row whose name fails to decode and go on with the rest:
  the failed \<open>Scan\<close> closes the rows, so the \<open>continue\<close> finds \<open>rows.Next()\<close> false and the
  loop ends. With the rows foo, NULL, bar stored it returns only foo, and with NULL, foo,
  bar it returns no name at all, both with no error, where the names that decode are foo
  and bar.
\<close>

theorem List_stops_at_undecodable_row:
  "List (example_ks [key_row ''foo'' [8, 1], null_row [8, 2], key_row ''bar'' [8, 3]] []) =
     Returns ([''foo''], None)
       (example_ks [key_row ''foo'' [8, 1], null_row [8, 2], key_row ''bar'' [8, 3]] [])
   \<and> List (example_ks [null_row [8, 2], key_row ''foo'' [8, 1], key_row ''bar'' [8, 3]] []) =
     Returns ([], None)
       (example_ks [null_row [8, 2], key_row ''foo'' [8, 1], key_row ''bar'' [8, 3]] [])"
  by (simp add: List_healthy example_ks_healthy example_ks_stored key_row_def null_row_def)

section \<open>The results of Has\<close>

text \<open>
  C7, as the code has it. \<open>Has\<close> returns the variable \<open>exists\<close> as \<open>Scan\<close> left it, in every
  branch. When \<open>Scan\<close> reports \<open>ErrNoRows\<close> that is false, and the error is \<open>ErrNoSuchKey\<close>.
  When \<open>Scan\<close> reports any other error, \<open>Has\<close> returns that error with \<open>exists\<close>; when it
  reports none, \<open>Has\<close> returns \<open>exists\<close> with no error. \<open>Has\<close> returns true together with an
  error only when the row was scanned as true and closing it then found the error, which
  is the error returned.
\<close>

theorem Has_results:
  assumes "pool k = Some p"
    and "QueryRow p (SelectExists (table k) name) = (row, p')"
    and "Scan_bool row False = (exists, err)"
  shows "(err = Some ErrNoRows \<longrightarrow>
            Has k name = Returns (False, Some ErrNoSuchKey) (k\<lparr>pool := Some p'\<rparr>))
       \<and> (\<forall>e. err = Some e \<and> e \<noteq> ErrNoRows \<longrightarrow>
            Has k name = Returns (exists, Some (DriverError e)) (k\<lparr>pool := Some p'\<rparr>))
       \<and> (err = None \<longrightarrow> Has k name = Returns (exists, None) (k\<lparr>pool := Some p'\<rparr>))
       \<and> (\<forall>e k'. Has k name = Returns (True, Some e) k' \<longrightarrow>
            (\<exists>vs msg. row = Answered (VBool True # vs) (Some msg)
               \<and> e = DriverError (PgError msg)))"
proof -
  have norows: "err = Some ErrNoRows \<Longrightarrow> exists = False"
    using assms(3) Scan_bool_ErrNoRows by fastforce
  have has: "Has k name =
     (case err of
        Some ErrNoRows \<Rightarrow> Returns (exists, Some ErrNoSuchKey) (k\<lparr>pool := Some p'\<rparr>)
      | None \<Rightarrow> Returns (exists, None) (k\<lparr>pool := Some p'\<rparr>)
      | Some e \<Rightarrow> Returns (exists, Some (DriverError e)) (k\<lparr>pool := Some p'\<rparr>))"
    using assms by (simp add: Has_def Let_def)
  have written: "\<exists>vs msg. row = Answered (VBool True # vs) (Some msg) \<and> e = DriverError (PgError msg)"
    if "Has k name = Returns (True, Some e) k'" for e k'
  proof -
    from that has norows have ex: "exists" and e: "\<exists>e'. err = Some e' \<and> e = DriverError e'"
      by (auto split: option.splits pgx_error.splits)
    from assms(3) ex obtain vs late where "row = Answered (VBool True # vs) late"
      "err = close_error late"
      using Scan_bool_written [of row err] by auto
    with e show ?thesis
      by (auto elim: close_error.elims)
  qed
  show ?thesis
    using norows has written by (auto split: option.splits pgx_error.splits)
qed

theorem Has_results_witness:
  "Has (example_ks [] [Some (Refused ErrNoRows)]) ''foo'' =
     Returns (False, Some ErrNoSuchKey) (example_ks [] [])
   \<and> Has (example_ks [] [Some (Refused (PgError ''timeout''))]) ''foo'' =
     Returns (False, Some (DriverError (PgError ''timeout''))) (example_ks [] [])
   \<and> Has (example_ks [key_row ''foo'' [8, 1]] [None]) ''foo'' =
     Returns (True, None) (example_ks [key_row ''foo'' [8, 1]] [])"
proof -
  have p: "pool (example_ks rows fs) = Some (example_pool rows fs)" for rows fs
    by (simp add: example_ks_def)
  have q1: "QueryRow (example_pool [] [Some (Refused ErrNoRows)])
      (SelectExists (table (example_ks [] [Some (Refused ErrNoRows)])) ''foo'') =
      (Failed ErrNoRows, example_pool [] [])"
    by (simp add: QueryRow_def request_def example_pool_def)
  have q2: "QueryRow (example_pool [] [Some (Refused (PgError ''timeout''))])
      (SelectExists (table (example_ks [] [Some (Refused (PgError ''timeout''))])) ''foo'') =
      (Failed (PgError ''timeout''), example_pool [] [])"
    by (simp add: QueryRow_def request_def example_pool_def)
  have q3: "QueryRow (example_pool [key_row ''foo'' [8, 1]] [None])
      (SelectExists (table (example_ks [key_row ''foo'' [8, 1]] [None])) ''foo'') =
      (Answered [VBool True] None, example_pool [key_row ''foo'' [8, 1]] [])"
    by (simp add: run_defs)
  have s1: "Scan_bool (Failed ErrNoRows) False = (False, Some ErrNoRows)"
    and s2: "Scan_bool (Failed (PgError ''timeout'')) False = (False, Some (PgError ''timeout''))"
    and s3: "Scan_bool (Answered [VBool True] None) False = (True, None)"
    by simp_all
  from Has_results [OF p q1 s1] Has_results [OF p q2 s2] Has_results [OF p q3 s3]
  show ?thesis
    by (simp add: example_ks_def)
qed

text \<open>
  The row is there and is scanned as true, and the connection fails before the command
  completes: \<open>Has\<close> returns true together with the error.
\<close>

theorem Has_true_with_error:
  "Has (example_ks [key_row ''foo'' [8, 1]] [Some (Interrupted ''unexpected EOF'')]) ''foo'' =
     Returns (True, Some (DriverError (PgError ''unexpected EOF'')))
       (example_ks [key_row ''foo'' [8, 1]] [])"
  by (simp add: run_defs)

section \<open>Configuration\<close>

text \<open>No call changes the \<open>table\<close> field.\<close>

lemma Has_table: "Has k n = Returns r k' \<Longrightarrow> table k' = table k"
  by (erule Has_Returns)

lemma Get_table: "Get c k n = Returns r k' \<Longrightarrow> table k' = table k"
  by (auto simp: Get_def Let_def split: option.splits prod.splits pgx_error.splits)

lemma Delete_table: "Delete k n = Returns r k' \<Longrightarrow> table k' = table k"
  by (auto simp: Delete_def Let_def split: option.splits prod.splits)

lemma List_table: "List k = Returns r k' \<Longrightarrow> table k' = table k"
  by (auto simp: List_def Let_def split: option.splits prod.splits)

lemma Close_table: "Close k = Returns r k' \<Longrightarrow> table k' = table k"
  by (auto simp: Close_def split: option.splits)

lemma Put_table:
  assumes "Put c k n priv = Returns r k'"
  shows "table k' = table k"
proof (cases "n = []")
  case True
  with assms show ?thesis by (simp add: Put_def)
next
  case False
  with assms obtain ex err k1 where has: "Has k n = Returns (ex, err) k1"
    by (auto simp: Put_def split: outcome.splits)
  then have "table k1 = table k" by (rule Has_table)
  moreover have "table k' = table k1"
    using assms False has
    by (auto simp: Put_def Let_def split: if_splits sum.splits option.splits prod.splits)
  ultimately show ?thesis by simp
qed

lemma call_method_table: "call_method c k x = Some k' \<Longrightarrow> table k' = table k"
proof (cases x)
  case (CallHas n)
  assume "call_method c k x = Some k'"
  with CallHas show ?thesis by (cases "Has k n") (auto dest: Has_table)
next
  case (CallPut n priv)
  assume "call_method c k x = Some k'"
  with CallPut show ?thesis by (cases "Put c k n priv") (auto dest: Put_table)
next
  case (CallGet n)
  assume "call_method c k x = Some k'"
  with CallGet show ?thesis by (cases "Get c k n") (auto dest: Get_table)
next
  case (CallDelete n)
  assume "call_method c k x = Some k'"
  with CallDelete show ?thesis by (cases "Delete k n") (auto dest: Delete_table)
next
  case CallList
  assume "call_method c k x = Some k'"
  with CallList show ?thesis by (cases "List k") (auto dest: List_table)
next
  case CallClose
  assume "call_method c k x = Some k'"
  with CallClose show ?thesis by (cases "Close k") (auto dest: Close_table)
qed

lemma run_calls_table: "run_calls c k xs = Some k' \<Longrightarrow> table k' = table k"
proof (induction xs arbitrary: k)
  case Nil
  then show ?case by simp
next
  case (Cons x xs)
  then obtain k1 where k1: "call_method c k x = Some k1" and "run_calls c k1 xs = Some k'"
    by (auto split: option.splits)
  with Cons.IH have "table k' = table k1" by simp
  with call_method_table [OF k1] show ?case by simp
qed

text \<open>
  C8. A keystore constructed with no option is configured for the table "keys"; and
  whatever sequence of method calls is made on a keystore, the table it is configured for
  afterwards is the one it was configured for before.
\<close>

theorem table_default_and_fixed:
  "(NewKeystore Connect connString [] = Inr k \<longrightarrow> table k = ''keys'')
   \<and> (run_calls c k calls = Some k' \<longrightarrow> table k' = table k)"
  by (auto simp: NewKeystore_def Apply_def OptionDefaults_def run_calls_table
      split: sum.splits)

theorem table_default_and_fixed_witness:
  "NewKeystore (\<lambda>s. Inr (example_pool [] [])) ''postgres://127.0.0.1/test_keystore'' [] =
     Inr (example_ks [] [])
   \<and> table (example_ks [] []) = ''keys''
   \<and> run_calls tagged_codec (example_ks [] [])
       [CallPut ''foo'' [1, 2, 3], CallHas ''foo'', CallList, CallGet ''foo'',
        CallDelete ''foo'', CallClose] =
     Some \<lparr>table = ''keys'', pool = Some (Pool_Close (example_pool [] []))\<rparr>
   \<and> table \<lparr>table = ''keys'', pool = Some (Pool_Close (example_pool [] []))\<rparr> =
     table (example_ks [] [])"
proof -
  have new: "NewKeystore (\<lambda>s. Inr (example_pool [] [])) ''postgres://127.0.0.1/test_keystore'' [] =
     Inr (example_ks [] [])"
    by (simp add: NewKeystore_def Apply_def OptionDefaults_def example_ks_def)
  have run: "run_calls tagged_codec (example_ks [] [])
       [CallPut ''foo'' [1, 2, 3], CallHas ''foo'', CallList, CallGet ''foo'',
        CallDelete ''foo'', CallClose] =
     Some \<lparr>table = ''keys'', pool = Some (Pool_Close (example_pool [] []))\<rparr>"
    by (simp add: run_defs List_def Query_def List_loop.simps Rows_Next_def
        Rows_Scan_string_def)
  from table_default_and_fixed [of "\<lambda>s. Inr (example_pool [] [])"
      "''postgres://127.0.0.1/test_keystore''" "example_ks [] []" tagged_codec
      "[CallPut ''foo'' [1, 2, 3], CallHas ''foo'', CallList, CallGet ''foo'',
        CallDelete ''foo'', CallClose]"
      "\<lparr>table = ''keys'', pool = Some (Pool_Close (example_pool [] []))\<rparr>"]
    new run
  show ?thesis by blast
qed

lemma Apply_from_Table:
  "Table' o' \<noteq> [] \<Longrightarrow>
   \<exists>o''. Apply_from i (map Table ts) o' = (None, o'') \<and> Table' o'' \<noteq> []"
proof (induction ts arbitrary: i o')
  case Nil
  then show ?case by simp
next
  case (Cons t ts)
  show ?case
  proof (cases "t = []")
    case True
    with Cons.IH [OF Cons.prems, of "Suc i"] show ?thesis
      by (simp add: Table_def)
  next
    case False
    then have "Table' (o'\<lparr>Table' := t\<rparr>) \<noteq> []" by simp
    from Cons.IH [OF this, of "Suc i"] False show ?thesis
      by (simp add: Table_def)
  qed
qed

text \<open>
  C9, as the code has it. \<open>Table\<close> applied to the empty string returns the options it was
  given and no error. So a keystore constructed from options that are all made by \<open>Table\<close>
  is never configured for the empty table name, and one constructed from \<open>Table\<close> of the
  empty string alone is configured for "keys".
\<close>

theorem Table_empty_noop:
  "Table '''' o' = (None, o')
   \<and> (NewKeystore Connect connString (map Table ts) = Inr k \<longrightarrow> table k \<noteq> '''')
   \<and> (NewKeystore Connect connString [Table ''''] = Inr k \<longrightarrow> table k = ''keys'')"
proof (intro conjI impI)
  show "Table '''' o' = (None, o')"
    by (simp add: Table_def)
next
  assume a: "NewKeystore Connect connString (map Table ts) = Inr k"
  obtain o'' where "Apply_from (Suc 0) (map Table ts) \<lparr>Table' = ''keys''\<rparr> = (None, o'')"
    and "Table' o'' \<noteq> []"
    using Apply_from_Table [of "\<lparr>Table' = ''keys''\<rparr>" "Suc 0" ts] by auto
  with a show "table k \<noteq> ''''"
    by (auto simp: NewKeystore_def Apply_def OptionDefaults_def split: sum.splits)
next
  assume "NewKeystore Connect connString [Table ''''] = Inr k"
  then show "table k = ''keys''"
    by (auto simp: NewKeystore_def Apply_def OptionDefaults_def Table_def split: sum.splits)
qed

theorem Table_empty_noop_witness:
  "NewKeystore (\<lambda>s. Inr (example_pool [] [])) ''postgres://127.0.0.1/test_keystore''
       (map Table ['''', ''mykeys'', '''']) =
     Inr \<lparr>table = ''mykeys'', pool = Some (example_pool [] [])\<rparr>
   \<and> table \<lparr>table = ''mykeys'', pool = Some (example_pool [] [])\<rparr> \<noteq> ''''
   \<and> NewKeystore (\<lambda>s. Inr (example_pool [] [])) ''postgres://127.0.0.1/test_keystore''
       [Table ''''] =
     Inr (example_ks [] [])
   \<and> table (example_ks [] []) = ''keys''"
proof -
  have a: "NewKeystore (\<lambda>s. Inr (example_pool [] [])) ''postgres://127.0.0.1/test_keystore''
       (map Table ['''', ''mykeys'', '''']) =
     Inr \<lparr>table = ''mykeys'', pool = Some (example_pool [] [])\<rparr>"
    by (simp add: NewKeystore_def Apply_def OptionDefaults_def Table_def)
  have b: "NewKeystore (\<lambda>s. Inr (example_pool [] [])) ''postgres://127.0.0.1/test_keystore''
       [Table ''''] =
     Inr (example_ks [] [])"
    by (simp add: NewKeystore_def Apply_def OptionDefaults_def Table_def example_ks_def)
  from Table_empty_noop [of _ "\<lambda>s. Inr (example_pool [] [])"
      "''postgres://127.0.0.1/test_keystore''" "['''', ''mykeys'', '''']"
      "\<lparr>table = ''mykeys'', pool = Some (example_pool [] [])\<rparr>"]
    Table_empty_noop [of _ "\<lambda>s. Inr (example_pool [] [])"
      "''postgres://127.0.0.1/test_keystore''" _ "example_ks [] []"]
    a b
  show ?thesis by blast
qed

text \<open>
  An option written by the caller is applied like any other, after the defaults: the
  keystore constructed from \<open>blank_table\<close> is configured for the empty table name, also
  when \<open>Table\<close> of the empty string follows it.
\<close>

theorem NewKeystore_blank_table:
  "NewKeystore example_connect ''postgres://127.0.0.1/test_keystore'' [blank_table] =
     Inr \<lparr>table = '''', pool = Some (example_pool [] [])\<rparr>
   \<and> NewKeystore example_connect ''postgres://127.0.0.1/test_keystore''
       [blank_table, Table ''''] =
     Inr \<lparr>table = '''', pool = Some (example_pool [] [])\<rparr>"
  by (simp add: NewKeystore_def Apply_def OptionDefaults_def Table_def blank_table_def
      example_connect_def)

section \<open>Close\<close>

text \<open>
  C10. \<open>Close\<close> returns nil on every keystore, never panics, and leaves the table the
  keystore is configured for as it was; on a keystore whose pool is nil it returns nil
  and changes nothing.
\<close>

theorem Close_returns_nil:
  "(\<exists>k'. Close k = Returns None k' \<and> table k' = table k)
   \<and> Close (k\<lparr>pool := None\<rparr>) = Returns None (k\<lparr>pool := None\<rparr>)"
  by (simp add: Close_def split: option.splits)

theorem Close_returns_nil_witness:
  "Close (example_ks [] []) =
     Returns None \<lparr>table = ''keys'', pool = Some (Pool_Close (example_pool [] []))\<rparr>
   \<and> Close \<lparr>table = ''keys'', pool = None\<rparr> = Returns None \<lparr>table = ''keys'', pool = None\<rparr>"
  using Close_returns_nil [of "\<lparr>table = ''keys'', pool = None\<rparr>"]
  by (simp add: Close_def example_ks_def)

end
